theory Spec2Isabelle
  imports Main "HOL-Library.Word" "HOL-Library.Code_Target_Numeral"
begin

section \<open>The auction record of lib/covenants/auction.js\<close>

text \<open>
  The development embeds the two classes of \<^verbatim>\<open>lib/covenants/auction.js\<close>, \<^verbatim>\<open>Op\<close> and
  \<^verbatim>\<open>Auction\<close>, and proves the properties the specification states about them.

  JavaScript numbers that hold heights, values and lengths are natural numbers here; a
  \<^verbatim>\<open>Buffer\<close> is a list of bytes; \<^verbatim>\<open>null\<close> data is \<open>None\<close>. An \<^verbatim>\<open>Auction\<close> object is
  mutable and is passed by reference: the mutators write the fields of \<^verbatim>\<open>this\<close>, and
  \<^verbatim>\<open>setAuction\<close> stores both \<^verbatim>\<open>this\<close> and a clone of it in its logs. The objects therefore
  live in a store, a list of records indexed by their addresses, and an operation of a
  log holds the address of the auction it carries. Buffers and outpoints are values: no
  method of the file writes into a buffer or an outpoint that an existing record holds
  (\<^verbatim>\<open>fromReader\<close> fills the outpoints of the record it has just created).
\<close>

subsection \<open>Buffers and the binary codec\<close>

type_synonym byte = "8 word"
type_synonym buffer = "byte list"

datatype error = EncodingError | BadOpType

definition bindE :: "error + 'a \<Rightarrow> ('a \<Rightarrow> error + 'b) \<Rightarrow> error + 'b" where
  "bindE m f = (case m of Inl e \<Rightarrow> Inl e | Inr x \<Rightarrow> f x)"

text \<open>
  Modelled from the spec: the primitives of the codec. They belong to the library \<^verbatim>\<open>bufio\<close>,
  which is not among the sources, and are modelled by their contract (section 6 of the
  specification): fixed-width unsigned integers, little-endian, and byte strings prefixed
  by a variable-length integer (1, 3, 5 or 9 bytes, the shortest form only). A number too
  large for its field is cut to the width of the field; the claims are about numbers
  within range.
  The limits of JavaScript's double-precision numbers are not modelled.
\<close>

fun le_bytes :: "nat \<Rightarrow> nat \<Rightarrow> buffer" where
  "le_bytes 0 v = []"
| "le_bytes (Suc k) v = of_nat (v mod 256) # le_bytes k (v div 256)"

fun le_nat :: "buffer \<Rightarrow> nat" where
  "le_nat [] = 0"
| "le_nat (b # bs) = unat b + 256 * le_nat bs"

text \<open>
  A writer made by \<^verbatim>\<open>bio.write(size)\<close> owns a buffer of \<open>size\<close> bytes and fills it from
  the front; \<^verbatim>\<open>render\<close> hands the buffer out when exactly \<open>size\<close> bytes were written and
  raises otherwise.
\<close>

record writer =
  alloc :: nat
  out :: buffer

definition bio_write :: "nat \<Rightarrow> writer" where
  "bio_write n = \<lparr>alloc = n, out = []\<rparr>"

definition render :: "writer \<Rightarrow> error + buffer" where
  "render bw = (if length (out bw) = alloc bw then Inr (out bw) else Inl EncodingError)"

definition writeBytes :: "buffer \<Rightarrow> writer \<Rightarrow> writer" where
  "writeBytes bs bw = bw\<lparr>out := out bw @ bs\<rparr>"

definition writeU8 :: "nat \<Rightarrow> writer \<Rightarrow> writer" where
  "writeU8 v bw = writeBytes (le_bytes 1 v) bw"

definition writeU16 :: "nat \<Rightarrow> writer \<Rightarrow> writer" where
  "writeU16 v bw = writeBytes (le_bytes 2 v) bw"

definition writeU32 :: "nat \<Rightarrow> writer \<Rightarrow> writer" where
  "writeU32 v bw = writeBytes (le_bytes 4 v) bw"

definition writeU64 :: "nat \<Rightarrow> writer \<Rightarrow> writer" where
  "writeU64 v bw = writeBytes (le_bytes 8 v) bw"

definition sizeVarint :: "nat \<Rightarrow> nat" where
  "sizeVarint n = (if n < 0xfd then 1 else if n \<le> 0xffff then 3
     else if n \<le> 0xffffffff then 5 else 9)"

definition sizeVarlen :: "nat \<Rightarrow> nat" where
  "sizeVarlen len = sizeVarint len + len"

definition writeVarint :: "nat \<Rightarrow> writer \<Rightarrow> writer" where
  "writeVarint n bw =
     (if n < 0xfd then writeU8 n bw
      else if n \<le> 0xffff then writeU16 n (writeU8 0xfd bw)
      else if n \<le> 0xffffffff then writeU32 n (writeU8 0xfe bw)
      else writeU64 n (writeU8 0xff bw))"

definition writeVarBytes :: "buffer \<Rightarrow> writer \<Rightarrow> writer" where
  "writeVarBytes bs bw = writeBytes bs (writeVarint (length bs) bw)"

text \<open>
  A reader made by \<^verbatim>\<open>bio.read(data)\<close> is the bytes not yet consumed; a read past the end
  raises.
\<close>

type_synonym reader = buffer

definition bio_read :: "buffer \<Rightarrow> reader" where
  "bio_read bs = bs"

definition readBytes :: "nat \<Rightarrow> reader \<Rightarrow> error + (buffer \<times> reader)" where
  "readBytes n br = (if length br < n then Inl EncodingError else Inr (take n br, drop n br))"

definition readUInt :: "nat \<Rightarrow> reader \<Rightarrow> error + (nat \<times> reader)" where
  "readUInt k br = bindE (readBytes k br) (\<lambda>(bs, br). Inr (le_nat bs, br))"

definition readU8 :: "reader \<Rightarrow> error + (nat \<times> reader)" where
  "readU8 br = readUInt 1 br"

definition readU16 :: "reader \<Rightarrow> error + (nat \<times> reader)" where
  "readU16 br = readUInt 2 br"

definition readU32 :: "reader \<Rightarrow> error + (nat \<times> reader)" where
  "readU32 br = readUInt 4 br"

definition readU64 :: "reader \<Rightarrow> error + (nat \<times> reader)" where
  "readU64 br = readUInt 8 br"

definition readVarint :: "reader \<Rightarrow> error + (nat \<times> reader)" where
  "readVarint br = bindE (readU8 br) (\<lambda>(p, br).
     if p = 0xff then bindE (readU64 br) (\<lambda>(n, br).
       if n \<le> 0xffffffff then Inl EncodingError else Inr (n, br))
     else if p = 0xfe then bindE (readU32 br) (\<lambda>(n, br).
       if n \<le> 0xffff then Inl EncodingError else Inr (n, br))
     else if p = 0xfd then bindE (readU16 br) (\<lambda>(n, br).
       if n < 0xfd then Inl EncodingError else Inr (n, br))
     else Inr (p, br))"

definition readVarBytes :: "reader \<Rightarrow> error + (buffer \<times> reader)" where
  "readVarBytes br = bindE (readVarint br) (\<lambda>(n, br). readBytes n br)"

subsection \<open>Outpoints, chain parameters and the coin view\<close>

text \<open>
  Modelled from the spec: the class \<^verbatim>\<open>Outpoint\<close> of \<^verbatim>\<open>lib/primitives/outpoint.js\<close> and the
  constant \<^verbatim>\<open>ZERO_HASH\<close> of \<^verbatim>\<open>lib/protocol/consensus.js\<close>, which are not among the
  sources. An outpoint is a transaction id and an output index with a distinguished null
  value (the one \<^verbatim>\<open>new Outpoint()\<close> makes) and a fixed encoding of 36 bytes: the 32 bytes
  of the id, then the index as an unsigned 32-bit integer.
\<close>

record outpoint =
  hash :: buffer
  index :: nat

definition ZERO_HASH :: buffer where
  "ZERO_HASH = replicate 32 0"

definition Outpoint_new :: outpoint where
  "Outpoint_new = \<lparr>hash = ZERO_HASH, index = 0xffffffff\<rparr>"

definition Outpoint_isNull :: "outpoint \<Rightarrow> bool" where
  "Outpoint_isNull this = (index this = 0xffffffff \<and> hash this = ZERO_HASH)"

definition Outpoint_toWriter :: "outpoint \<Rightarrow> writer \<Rightarrow> writer" where
  "Outpoint_toWriter this bw = writeU32 (index this) (writeBytes (hash this) bw)"

definition Outpoint_fromReader :: "reader \<Rightarrow> error + (outpoint \<times> reader)" where
  "Outpoint_fromReader br = bindE (readBytes 32 br) (\<lambda>(h, br).
     bindE (readU32 br) (\<lambda>(i, br). Inr (\<lparr>hash = h, index = i\<rparr>, br)))"

text \<open>
  The three constants of \<^verbatim>\<open>lib/covenants/rules.js\<close> that the file reads are parameters.
\<close>

record rules =
  BIDDING_PERIOD :: nat
  TOTAL_PERIOD :: nat
  RENEWAL_WINDOW :: nat

text \<open>
  \<^verbatim>\<open>view.getEntry(prevout)\<close> gives a coin entry or nothing; of the entry only its height is
  read, which is \<open>-1\<close> for a coin that is not confirmed.
\<close>

record coin_entry =
  coin_height :: int

type_synonym coin_view = "outpoint \<Rightarrow> coin_entry option"

subsection \<open>Operations and auctions\<close>

text \<open>
  \<^verbatim>\<open>states\<close> and \<^verbatim>\<open>types\<close> are tables of small integers.
\<close>

definition BIDDING :: nat where "BIDDING = 0"
definition REVEAL :: nat where "REVEAL = 1"
definition CLOSED :: nat where "CLOSED = 2"

text \<open>
  An \<^verbatim>\<open>Op\<close> is a type tag and the list of its parameters; the six tags fix the shape of
  the list, so an operation is one of six constructors. The parameter of \<^verbatim>\<open>SET_AUCTION\<close>
  is an \<^verbatim>\<open>Auction\<close> object: its address in the logs of a stored record (\<open>nat op\<close>), the
  object itself where an operation is encoded or decoded (\<open>auction op\<close>).
\<close>

datatype 'a op =
    SET_AUCTION 'a
  | SET_OWNER outpoint nat
  | SET_REVOKE outpoint
  | SET_DATA "buffer option"
  | SET_RENEWAL nat
  | SET_CLAIMED bool

definition types_SET_AUCTION :: nat where "types_SET_AUCTION = 0"
definition types_SET_OWNER :: nat where "types_SET_OWNER = 1"
definition types_SET_REVOKE :: nat where "types_SET_REVOKE = 2"
definition types_SET_DATA :: nat where "types_SET_DATA = 3"
definition types_SET_RENEWAL :: nat where "types_SET_RENEWAL = 4"
definition types_SET_CLAIMED :: nat where "types_SET_CLAIMED = 5"

fun op_type :: "'a op \<Rightarrow> nat" where
  "op_type (SET_AUCTION _) = types_SET_AUCTION"
| "op_type (SET_OWNER _ _) = types_SET_OWNER"
| "op_type (SET_REVOKE _) = types_SET_REVOKE"
| "op_type (SET_DATA _) = types_SET_DATA"
| "op_type (SET_RENEWAL _) = types_SET_RENEWAL"
| "op_type (SET_CLAIMED _) = types_SET_CLAIMED"

type_synonym ref = nat

record auction =
  name :: buffer
  nameHash :: buffer
  owner :: outpoint
  value' :: nat
  revoke :: outpoint
  data :: "buffer option"
  height :: nat
  renewal :: nat
  claimed :: bool
  ops :: "ref op list"
  undo :: "ref op list"

definition EMPTY :: buffer where
  "EMPTY = []"

definition Auction_new :: auction where
  "Auction_new = \<lparr>name = EMPTY, nameHash = ZERO_HASH, owner = Outpoint_new, value' = 0,
     revoke = Outpoint_new, data = None, height = 0, renewal = 0, claimed = False,
     ops = [], undo = []\<rparr>"

definition inject :: "auction \<Rightarrow> auction \<Rightarrow> auction" where
  "inject this auction = this\<lparr>name := name auction, nameHash := nameHash auction,
     owner := owner auction, value' := value' auction, revoke := revoke auction,
     data := data auction, height := height auction, renewal := renewal auction,
     claimed := claimed auction\<rparr>"

definition Auction_isNull :: "auction \<Rightarrow> bool" where
  "Auction_isNull this = (Outpoint_isNull (owner this) \<and> value' this = 0
     \<and> Outpoint_isNull (revoke this) \<and> data this = None \<and> height this = 0
     \<and> renewal this = 0 \<and> claimed this = False)"

definition setNull :: "auction \<Rightarrow> auction" where
  "setNull this = this\<lparr>owner := Outpoint_new, value' := 0, revoke := Outpoint_new,
     data := None, height := 0, renewal := 0, claimed := False\<rparr>"

subsection \<open>The phase of an auction\<close>

text \<open>
  The methods take a \<^verbatim>\<open>network\<close> argument that they do not read; it is left out. The
  queries read the fields of \<^verbatim>\<open>this\<close> and change nothing, so they take the record.
\<close>

definition state :: "rules \<Rightarrow> auction \<Rightarrow> nat \<Rightarrow> nat" where
  "state rules this h =
     (if claimed this then CLOSED
      else if h < height this + BIDDING_PERIOD rules then BIDDING
      else if h < height this + TOTAL_PERIOD rules then REVEAL
      else CLOSED)"

definition isBidding :: "rules \<Rightarrow> auction \<Rightarrow> nat \<Rightarrow> bool" where
  "isBidding rules this h = (state rules this h = BIDDING)"

definition isReveal :: "rules \<Rightarrow> auction \<Rightarrow> nat \<Rightarrow> bool" where
  "isReveal rules this h = (state rules this h = REVEAL)"

definition isClosed :: "rules \<Rightarrow> auction \<Rightarrow> nat \<Rightarrow> bool" where
  "isClosed rules this h = (state rules this h = CLOSED)"

definition isExpired :: "rules \<Rightarrow> auction \<Rightarrow> nat \<Rightarrow> bool" where
  "isExpired rules this h =
     (if \<not> isClosed rules this h then False
      else if h \<ge> renewal this + RENEWAL_WINDOW rules then True
      else if Outpoint_isNull (owner this) \<and> Outpoint_isNull (revoke this) then True
      else False)"

definition isLocal :: "auction \<Rightarrow> coin_view \<Rightarrow> outpoint \<Rightarrow> bool" where
  "isLocal this view prevout =
     (case view prevout of
        None \<Rightarrow> True
      | Some entry \<Rightarrow>
          if coin_height entry = - 1 then True
          else coin_height entry \<ge> int (height this))"

subsection \<open>The store and the mutators\<close>

text \<open>
  The store is the list of the \<^verbatim>\<open>Auction\<close> objects made so far; an object's address is its
  position, and \<^verbatim>\<open>new Auction()\<close> appends. Each mutator is the sequence of the source's
  statements on the object at \<^verbatim>\<open>this\<close>; \<^verbatim>\<open>push\<close> appends to a log.
\<close>

type_synonym heap = "auction list"

definition modify :: "ref \<Rightarrow> (auction \<Rightarrow> auction) \<Rightarrow> heap \<Rightarrow> heap" where
  "modify this f h = h[this := f (h ! this)]"

definition clone :: "ref \<Rightarrow> heap \<Rightarrow> ref \<times> heap" where
  "clone this h = (length h, h @ [inject Auction_new (h ! this)])"

definition setAuction :: "ref \<Rightarrow> buffer \<Rightarrow> nat \<Rightarrow> heap \<Rightarrow> heap" where
  "setAuction this name' height' h0 =
     (let h1 = modify this (\<lambda>a. a\<lparr>name := name'\<rparr>) h0;
          h2 = (if data (h1 ! this) \<noteq> None
                then modify this (\<lambda>a. a\<lparr>ops := ops a @ [SET_DATA None]\<rparr>)
                       (modify this (\<lambda>a. a\<lparr>undo := undo a @ [SET_DATA (data a)]\<rparr>) h1)
                else h1);
          (copy, h3) = clone this h2;
          h4 = modify this (\<lambda>a. a\<lparr>undo := undo a @ [SET_AUCTION copy]\<rparr>) h3;
          h5 = modify this (\<lambda>a. a\<lparr>ops := ops a @ [SET_AUCTION this]\<rparr>) h4;
          h6 = modify this setNull h5;
          h7 = modify this (\<lambda>a. a\<lparr>height := height'\<rparr>) h6
      in modify this (\<lambda>a. a\<lparr>renewal := height'\<rparr>) h7)"

definition setOwner :: "ref \<Rightarrow> outpoint \<Rightarrow> nat \<Rightarrow> heap \<Rightarrow> heap" where
  "setOwner this owner' v h0 =
     (let h1 = modify this (\<lambda>a. a\<lparr>undo := undo a @ [SET_OWNER (owner a) (value' a)]\<rparr>) h0;
          h2 = modify this (\<lambda>a. a\<lparr>ops := ops a @ [SET_OWNER owner' v]\<rparr>) h1;
          h3 = modify this (\<lambda>a. a\<lparr>owner := owner'\<rparr>) h2
      in modify this (\<lambda>a. a\<lparr>value' := v\<rparr>) h3)"

definition setRevoke :: "ref \<Rightarrow> outpoint \<Rightarrow> heap \<Rightarrow> heap" where
  "setRevoke this revoke' h0 =
     (let h1 = modify this (\<lambda>a. a\<lparr>undo := undo a @ [SET_REVOKE (revoke a)]\<rparr>) h0;
          h2 = modify this (\<lambda>a. a\<lparr>ops := ops a @ [SET_REVOKE revoke']\<rparr>) h1
      in modify this (\<lambda>a. a\<lparr>revoke := revoke'\<rparr>) h2)"

definition setData :: "ref \<Rightarrow> buffer option \<Rightarrow> heap \<Rightarrow> heap" where
  "setData this data' h0 =
     (let h1 = modify this (\<lambda>a. a\<lparr>undo := undo a @ [SET_DATA (data a)]\<rparr>) h0;
          h2 = modify this (\<lambda>a. a\<lparr>ops := ops a @ [SET_DATA data']\<rparr>) h1
      in modify this (\<lambda>a. a\<lparr>data := data'\<rparr>) h2)"

definition setRenewal :: "ref \<Rightarrow> nat \<Rightarrow> heap \<Rightarrow> heap" where
  "setRenewal this renewal' h0 =
     (let h1 = modify this (\<lambda>a. a\<lparr>undo := undo a @ [SET_RENEWAL (renewal a)]\<rparr>) h0;
          h2 = modify this (\<lambda>a. a\<lparr>ops := ops a @ [SET_RENEWAL renewal']\<rparr>) h1
      in modify this (\<lambda>a. a\<lparr>renewal := renewal'\<rparr>) h2)"

definition setClaimed :: "ref \<Rightarrow> bool \<Rightarrow> heap \<Rightarrow> heap" where
  "setClaimed this claimed' h0 =
     (let h1 = modify this (\<lambda>a. a\<lparr>undo := undo a @ [SET_CLAIMED (claimed a)]\<rparr>) h0;
          h2 = modify this (\<lambda>a. a\<lparr>ops := ops a @ [SET_CLAIMED claimed']\<rparr>) h1
      in modify this (\<lambda>a. a\<lparr>claimed := claimed'\<rparr>) h2)"

text \<open>
  A mutator call with its arguments, and a sequence of calls on one record.
\<close>

datatype mutator =
    SetAuction buffer nat
  | SetOwner outpoint nat
  | SetRevoke outpoint
  | SetData "buffer option"
  | SetRenewal nat
  | SetClaimed bool

fun call :: "ref \<Rightarrow> mutator \<Rightarrow> heap \<Rightarrow> heap" where
  "call this (SetAuction n ht) h = setAuction this n ht h"
| "call this (SetOwner p v) h = setOwner this p v h"
| "call this (SetRevoke p) h = setRevoke this p h"
| "call this (SetData d) h = setData this d h"
| "call this (SetRenewal r) h = setRenewal this r h"
| "call this (SetClaimed c) h = setClaimed this c h"

definition calls :: "ref \<Rightarrow> mutator list \<Rightarrow> heap \<Rightarrow> heap" where
  "calls this cs h = fold (call this) cs h"

text \<open>
  Modelled from the spec: replaying the undo log. The driver that disconnects a block (the
  chain database) is not among the sources. By sections 2 and 4.2 of the specification it
  replays the inverse operations in reverse order against the record, an operation writes
  exactly the fields its payload carries, and a \<^verbatim>\<open>SET_AUCTION\<close> entry overwrites every
  field from its snapshot, which is what \<^verbatim>\<open>inject\<close> does. The logs are not touched.
\<close>

fun applyOp :: "ref \<Rightarrow> ref op \<Rightarrow> heap \<Rightarrow> heap" where
  "applyOp this (SET_AUCTION s) h = modify this (\<lambda>a. inject a (h ! s)) h"
| "applyOp this (SET_OWNER p v) h = modify this (\<lambda>a. a\<lparr>owner := p, value' := v\<rparr>) h"
| "applyOp this (SET_REVOKE p) h = modify this (\<lambda>a. a\<lparr>revoke := p\<rparr>) h"
| "applyOp this (SET_DATA d) h = modify this (\<lambda>a. a\<lparr>data := d\<rparr>) h"
| "applyOp this (SET_RENEWAL r) h = modify this (\<lambda>a. a\<lparr>renewal := r\<rparr>) h"
| "applyOp this (SET_CLAIMED c) h = modify this (\<lambda>a. a\<lparr>claimed := c\<rparr>) h"

definition replayUndo :: "ref \<Rightarrow> ref op list \<Rightarrow> heap \<Rightarrow> heap" where
  "replayUndo this us h = fold (applyOp this) (rev us) h"

subsection \<open>The binary encoding\<close>

text \<open>
  The encoders and decoders work on the object they are given, so they take the record;
  an operation read from a log of the store is dereferenced first.
\<close>

definition deref :: "heap \<Rightarrow> ref op \<Rightarrow> auction op" where
  "deref h this = map_op (\<lambda>r. h ! r) this"

definition Auction_getSize :: "auction \<Rightarrow> nat" where
  "Auction_getSize this =
     (let sz = 0;
          sz = sz + (1 + length (name this));
          sz = sz + 1;
          sz = (if \<not> Outpoint_isNull (owner this) then sz + (36 + 8) else sz);
          sz = sz + 1;
          sz = (if \<not> Outpoint_isNull (revoke this) then sz + 36 else sz);
          sz = sz + 1;
          sz = (case data this of Some d \<Rightarrow> sz + sizeVarlen (length d) | None \<Rightarrow> sz);
          sz = sz + (4 + 4);
          sz = sz + 1
      in sz)"

definition Auction_toWriter :: "auction \<Rightarrow> writer \<Rightarrow> writer" where
  "Auction_toWriter this bw =
     (let bw = writeU8 (length (name this)) bw;
          bw = writeBytes (name this) bw;
          bw = (if \<not> Outpoint_isNull (owner this)
                then writeU64 (value' this) (Outpoint_toWriter (owner this) (writeU8 1 bw))
                else writeU8 0 bw);
          bw = (if \<not> Outpoint_isNull (revoke this)
                then Outpoint_toWriter (revoke this) (writeU8 1 bw)
                else writeU8 0 bw);
          bw = (case data this of
                  Some d \<Rightarrow> writeVarBytes d (writeU8 1 bw)
                | None \<Rightarrow> writeU8 0 bw);
          bw = writeU32 (height this) bw;
          bw = writeU32 (renewal this) bw
      in writeU8 (if claimed this then 1 else 0) bw)"

definition Auction_toRaw :: "auction \<Rightarrow> error + buffer" where
  "Auction_toRaw this = (let bw = bio_write (Auction_getSize this) in render (Auction_toWriter this bw))"

definition Auction_fromReader :: "reader \<Rightarrow> error + (auction \<times> reader)" where
  "Auction_fromReader br =
     (let auction = Auction_new in
      bindE (readU8 br) (\<lambda>(n, br).
      bindE (readBytes n br) (\<lambda>(nm, br).
      let auction = auction\<lparr>name := nm\<rparr> in
      bindE (readU8 br) (\<lambda>(present, br).
      bindE (if present = 1
             then bindE (Outpoint_fromReader br) (\<lambda>(p, br).
                  bindE (readU64 br) (\<lambda>(v, br).
                  Inr (auction\<lparr>owner := p, value' := v\<rparr>, br)))
             else Inr (auction, br)) (\<lambda>(auction, br).
      bindE (readU8 br) (\<lambda>(present, br).
      bindE (if present = 1
             then bindE (Outpoint_fromReader br) (\<lambda>(p, br).
                  Inr (auction\<lparr>revoke := p\<rparr>, br))
             else Inr (auction, br)) (\<lambda>(auction, br).
      bindE (readU8 br) (\<lambda>(present, br).
      bindE (if present = 1
             then bindE (readVarBytes br) (\<lambda>(d, br).
                  Inr (auction\<lparr>data := Some d\<rparr>, br))
             else Inr (auction, br)) (\<lambda>(auction, br).
      bindE (readU32 br) (\<lambda>(ht, br).
      bindE (readU32 br) (\<lambda>(r, br).
      bindE (readU8 br) (\<lambda>(c, br).
      Inr (auction\<lparr>height := ht, renewal := r, claimed := (c = 1)\<rparr>, br)))))))))))))"

definition Auction_fromRaw :: "buffer \<Rightarrow> error + auction" where
  "Auction_fromRaw bs = bindE (Auction_fromReader (bio_read bs)) (\<lambda>(auction, br). Inr auction)"

fun Op_getSize :: "auction op \<Rightarrow> nat" where
  "Op_getSize (SET_AUCTION st) = 1 + Auction_getSize st"
| "Op_getSize (SET_OWNER owner' v) = 1 + 1 + (if \<not> Outpoint_isNull owner' then 36 + 8 else 0)"
| "Op_getSize (SET_REVOKE revoke') = 1 + 1 + (if \<not> Outpoint_isNull revoke' then 36 else 0)"
| "Op_getSize (SET_DATA data') =
     1 + 1 + (case data' of Some d \<Rightarrow> sizeVarlen (length d) | None \<Rightarrow> 0)"
| "Op_getSize (SET_RENEWAL r) = 1 + 4"
| "Op_getSize (SET_CLAIMED c) = 1 + 1"

fun Op_toWriter :: "auction op \<Rightarrow> writer \<Rightarrow> writer" where
  "Op_toWriter (SET_AUCTION st) bw = Auction_toWriter st (writeU8 types_SET_AUCTION bw)"
| "Op_toWriter (SET_OWNER owner' v) bw =
     (let bw = writeU8 types_SET_OWNER bw in
      if \<not> Outpoint_isNull owner'
      then writeU64 v (Outpoint_toWriter owner' (writeU8 1 bw))
      else writeU8 0 bw)"
| "Op_toWriter (SET_REVOKE revoke') bw =
     (let bw = writeU8 types_SET_REVOKE bw in
      if \<not> Outpoint_isNull revoke'
      then Outpoint_toWriter revoke' (writeU8 1 bw)
      else writeU8 0 bw)"
| "Op_toWriter (SET_DATA data') bw =
     (let bw = writeU8 types_SET_DATA bw in
      case data' of
        Some d \<Rightarrow> writeVarBytes d (writeU8 1 bw)
      | None \<Rightarrow> writeU8 0 bw)"
| "Op_toWriter (SET_RENEWAL r) bw = writeU32 r (writeU8 types_SET_RENEWAL bw)"
| "Op_toWriter (SET_CLAIMED c) bw =
     writeU8 (if c then 1 else 0) (writeU8 types_SET_CLAIMED bw)"

definition Op_toRaw :: "auction op \<Rightarrow> error + buffer" where
  "Op_toRaw this = (let sz = Op_getSize this in render (Op_toWriter this (bio_write sz)))"

definition Op_fromReader :: "reader \<Rightarrow> error + (auction op \<times> reader)" where
  "Op_fromReader br =
     bindE (readU8 br) (\<lambda>(t, br).
       if t = types_SET_AUCTION then
         bindE (Auction_fromReader br) (\<lambda>(st, br). Inr (SET_AUCTION st, br))
       else if t = types_SET_OWNER then
         bindE (readU8 br) (\<lambda>(present, br).
           if present = 1
           then bindE (Outpoint_fromReader br) (\<lambda>(p, br).
                bindE (readU64 br) (\<lambda>(v, br). Inr (SET_OWNER p v, br)))
           else Inr (SET_OWNER Outpoint_new 0, br))
       else if t = types_SET_REVOKE then
         bindE (readU8 br) (\<lambda>(present, br).
           if present = 1
           then bindE (Outpoint_fromReader br) (\<lambda>(p, br). Inr (SET_REVOKE p, br))
           else Inr (SET_REVOKE Outpoint_new, br))
       else if t = types_SET_DATA then
         bindE (readU8 br) (\<lambda>(present, br).
           if present = 1
           then bindE (readVarBytes br) (\<lambda>(d, br). Inr (SET_DATA (Some d), br))
           else Inr (SET_DATA None, br))
       else if t = types_SET_RENEWAL then
         bindE (readU32 br) (\<lambda>(r, br). Inr (SET_RENEWAL r, br))
       else if t = types_SET_CLAIMED then
         bindE (readU8 br) (\<lambda>(c, br). Inr (SET_CLAIMED (c = 1), br))
       else Inl BadOpType)"

definition Op_fromRaw :: "buffer \<Rightarrow> error + auction op" where
  "Op_fromRaw bs = bindE (Op_fromReader (bio_read bs)) (\<lambda>(this, br). Inr this)"

subsection \<open>Auxiliary notions of the statements\<close>

text \<open>
  The persisted fields of a record, in the order of the encoding.
\<close>

definition persisted ::
  "auction \<Rightarrow> buffer \<times> outpoint \<times> nat \<times> outpoint \<times> buffer option \<times> nat \<times> nat \<times> bool" where
  "persisted a = (name a, owner a, value' a, revoke a, data a, height a, renewal a, claimed a)"

text \<open>
  The data model of the specification (section 3): a name of at most 255 bytes, outpoints
  of a 32-byte id and a 32-bit index, a 64-bit value, 32-bit heights.
\<close>

definition Outpoint_wf :: "outpoint \<Rightarrow> bool" where
  "Outpoint_wf p = (length (hash p) = 32 \<and> index p < 2 ^ 32)"

definition Auction_typed :: "auction \<Rightarrow> bool" where
  "Auction_typed a = (length (name a) \<le> 255 \<and> Outpoint_wf (owner a) \<and> value' a < 2 ^ 64
     \<and> Outpoint_wf (revoke a)
     \<and> (case data a of Some d \<Rightarrow> length d < 2 ^ 64 | None \<Rightarrow> True)
     \<and> height a < 2 ^ 32 \<and> renewal a < 2 ^ 32)"

fun Op_typed :: "auction op \<Rightarrow> bool" where
  "Op_typed (SET_AUCTION st) = Auction_typed st"
| "Op_typed (SET_OWNER p v) = (Outpoint_wf p \<and> v < 2 ^ 64)"
| "Op_typed (SET_REVOKE p) = Outpoint_wf p"
| "Op_typed (SET_DATA d) = (case d of Some b \<Rightarrow> length b < 2 ^ 64 | None \<Rightarrow> True)"
| "Op_typed (SET_RENEWAL r) = (r < 2 ^ 32)"
| "Op_typed (SET_CLAIMED c) = True"

text \<open>
  The first invariant of that section: a null owner carries the value 0.
\<close>

definition Auction_wf :: "auction \<Rightarrow> bool" where
  "Auction_wf a = (Auction_typed a \<and> (Outpoint_isNull (owner a) \<longrightarrow> value' a = 0))"

fun Op_wf :: "auction op \<Rightarrow> bool" where
  "Op_wf (SET_AUCTION st) = Auction_wf st"
| "Op_wf (SET_OWNER p v) = (Op_typed (SET_OWNER p v) \<and> (Outpoint_isNull p \<longrightarrow> v = 0))"
| "Op_wf this = Op_typed this"

text \<open>
  What the encoding keeps of a record and of an operation: every persisted field, but the
  value 0 in place of the value that a null owner carries.
\<close>

definition Auction_kept :: "auction \<Rightarrow> auction" where
  "Auction_kept a = a\<lparr>value' := (if Outpoint_isNull (owner a) then 0 else value' a)\<rparr>"

fun Op_kept :: "auction op \<Rightarrow> auction op" where
  "Op_kept (SET_AUCTION st) = SET_AUCTION (Auction_kept st)"
| "Op_kept (SET_OWNER p v) = SET_OWNER p (if Outpoint_isNull p then 0 else v)"
| "Op_kept this = this"

text \<open>
  The fields of a record other than its name and its logs, and the name a record has
  once the undo entries of a sequence of calls are replayed: the name given to the first
  \<^verbatim>\<open>setAuction\<close> of the sequence, the name it had when there is none.
\<close>

definition body ::
  "auction \<Rightarrow> buffer \<times> outpoint \<times> nat \<times> outpoint \<times> buffer option \<times> nat \<times> nat \<times> bool" where
  "body a = (nameHash a, owner a, value' a, revoke a, data a, height a, renewal a, claimed a)"

fun undoneName :: "mutator list \<Rightarrow> buffer \<Rightarrow> buffer" where
  "undoneName [] n = n"
| "undoneName (SetAuction n' ht # cs) n = n'"
| "undoneName (c # cs) n = undoneName cs n"

section \<open>Properties\<close>

subsection \<open>The store: what a mutator writes\<close>

lemma modify_length [simp]: "length (modify this f h) = length h"
  by (simp add: modify_def)

lemma modify_nth_this [simp]: "this < length h \<Longrightarrow> modify this f h ! this = f (h ! this)"
  by (simp add: modify_def)

lemma modify_nth_other [simp]: "i \<noteq> this \<Longrightarrow> modify this f h ! i = h ! i"
  by (simp add: modify_def)

lemma modify_modify [simp]:
  "this < length h \<Longrightarrow> modify this f (modify this g h) = modify this (\<lambda>a. f (g a)) h"
  by (simp add: modify_def)

lemma modify_append [simp]:
  "this < length h \<Longrightarrow> modify this f (h @ xs) = modify this f h @ xs"
  by (simp add: modify_def list_update_append nth_append)

lemma setOwner_eq:
  "this < length h \<Longrightarrow> setOwner this p v h = h[this := (h ! this)\<lparr>
      undo := undo (h ! this) @ [SET_OWNER (owner (h ! this)) (value' (h ! this))],
      ops := ops (h ! this) @ [SET_OWNER p v], owner := p, value' := v\<rparr>]"
  by (simp add: setOwner_def Let_def) (simp add: modify_def)

lemma setAuction_eq:
  "this < length h \<Longrightarrow> setAuction this n ht h =
     h[this := (h ! this)\<lparr>name := n,
        undo := undo (h ! this) @
          (if data (h ! this) \<noteq> None then [SET_DATA (data (h ! this))] else []) @
          [SET_AUCTION (length h)],
        ops := ops (h ! this) @
          (if data (h ! this) \<noteq> None then [SET_DATA None] else []) @ [SET_AUCTION this],
        owner := Outpoint_new, value' := 0, revoke := Outpoint_new, data := None,
        height := ht, renewal := ht, claimed := False\<rparr>]
     @ [inject Auction_new ((h ! this)\<lparr>name := n\<rparr>)]"
  by (simp add: setAuction_def Let_def clone_def nth_append inject_def setNull_def)
     (cases "h ! this"; simp add: modify_def)

lemma setRevoke_eq:
  "this < length h \<Longrightarrow> setRevoke this p h = h[this := (h ! this)\<lparr>
      undo := undo (h ! this) @ [SET_REVOKE (revoke (h ! this))],
      ops := ops (h ! this) @ [SET_REVOKE p], revoke := p\<rparr>]"
  by (simp add: setRevoke_def Let_def) (simp add: modify_def)

lemma setData_eq:
  "this < length h \<Longrightarrow> setData this d h = h[this := (h ! this)\<lparr>
      undo := undo (h ! this) @ [SET_DATA (data (h ! this))],
      ops := ops (h ! this) @ [SET_DATA d], data := d\<rparr>]"
  by (simp add: setData_def Let_def) (simp add: modify_def)

lemma setRenewal_eq:
  "this < length h \<Longrightarrow> setRenewal this r h = h[this := (h ! this)\<lparr>
      undo := undo (h ! this) @ [SET_RENEWAL (renewal (h ! this))],
      ops := ops (h ! this) @ [SET_RENEWAL r], renewal := r\<rparr>]"
  by (simp add: setRenewal_def Let_def) (simp add: modify_def)

lemma setClaimed_eq:
  "this < length h \<Longrightarrow> setClaimed this c h = h[this := (h ! this)\<lparr>
      undo := undo (h ! this) @ [SET_CLAIMED (claimed (h ! this))],
      ops := ops (h ! this) @ [SET_CLAIMED c], claimed := c\<rparr>]"
  by (simp add: setClaimed_def Let_def) (simp add: modify_def)

lemmas mutator_eqs =
  setAuction_eq setOwner_eq setRevoke_eq setData_eq setRenewal_eq setClaimed_eq

lemma call_length: "this < length h \<Longrightarrow> length h \<le> length (call this c h)"
  by (cases c) (simp_all add: mutator_eqs)

lemma call_frame:
  "this < length h \<Longrightarrow> i < length h \<Longrightarrow> i \<noteq> this \<Longrightarrow> call this c h ! i = h ! i"
  by (cases c) (simp_all add: mutator_eqs nth_append)

lemma calls_length: "this < length h \<Longrightarrow> length h \<le> length (calls this cs h)"
proof (induction cs arbitrary: h)
  case Nil
  then show ?case by (simp add: calls_def)
next
  case (Cons c cs)
  have "length h \<le> length (call this c h)"
    using Cons.prems by (rule call_length)
  moreover have "length (call this c h) \<le> length (calls this cs (call this c h))"
    using Cons.prems call_length [of this h c] by (intro Cons.IH) simp
  ultimately show ?case by (simp add: calls_def)
qed

lemma calls_frame:
  "this < length h \<Longrightarrow> i < length h \<Longrightarrow> i \<noteq> this \<Longrightarrow> calls this cs h ! i = h ! i"
proof (induction cs arbitrary: h)
  case Nil
  then show ?case by (simp add: calls_def)
next
  case (Cons c cs)
  have len: "length h \<le> length (call this c h)"
    using Cons.prems(1) by (rule call_length)
  have "calls this cs (call this c h) ! i = call this c h ! i"
    using Cons.prems len by (intro Cons.IH) simp_all
  then show ?case
    using Cons.prems by (simp add: calls_def call_frame)
qed




subsection \<open>Replaying the undo log\<close>

lemma applyOp_length [simp]: "length (applyOp this u g) = length g"
  by (cases u) simp_all

lemma applyOp_frame [simp]: "i \<noteq> this \<Longrightarrow> applyOp this u g ! i = g ! i"
  by (cases u) simp_all

lemma fold_applyOp_length [simp]: "length (fold (applyOp this) us g) = length g"
  by (induction us arbitrary: g) simp_all

lemma fold_applyOp_frame [simp]: "i \<noteq> this \<Longrightarrow> fold (applyOp this) us g ! i = g ! i"
  by (induction us arbitrary: g) simp_all

lemma replayUndo_length [simp]: "length (replayUndo this us g) = length g"
  by (simp add: replayUndo_def)

lemma replayUndo_frame [simp]: "i \<noteq> this \<Longrightarrow> replayUndo this us g ! i = g ! i"
  by (simp add: replayUndo_def)

lemma replayUndo_append:
  "replayUndo this (us @ vs) g = replayUndo this us (replayUndo this vs g)"
  by (simp add: replayUndo_def)

lemma call_undo:
  assumes "this < length h"
  shows "\<exists>us. undo (call this c h ! this) = undo (h ! this) @ us \<and>
    (\<forall>g. length (call this c h) \<le> length g \<and>
         (\<forall>i < length (call this c h). i \<noteq> this \<longrightarrow> g ! i = call this c h ! i) \<and>
         body (g ! this) = body (call this c h ! this) \<longrightarrow>
       body (replayUndo this us g ! this) = body (h ! this) \<and>
       name (replayUndo this us g ! this) = undoneName [c] (name (g ! this)))"
proof (cases c)
  case (SetAuction n ht)
  show ?thesis
  proof (cases "data (h ! this)")
    case None
    show ?thesis
      apply (rule exI [of _ "[SET_AUCTION (length h)]"])
      using assms None SetAuction
      by (simp add: mutator_eqs replayUndo_def body_def nth_append inject_def)
  next
    case (Some d)
    show ?thesis
      apply (rule exI [of _ "[SET_DATA (Some d), SET_AUCTION (length h)]"])
      using assms Some SetAuction
      by (simp add: mutator_eqs replayUndo_def body_def nth_append inject_def)
  qed
next
  case (SetOwner p v)
  show ?thesis
    apply (rule exI [of _ "[SET_OWNER (owner (h ! this)) (value' (h ! this))]"])
    using assms SetOwner by (simp add: mutator_eqs replayUndo_def body_def)
next
  case (SetRevoke p)
  show ?thesis
    apply (rule exI [of _ "[SET_REVOKE (revoke (h ! this))]"])
    using assms SetRevoke by (simp add: mutator_eqs replayUndo_def body_def)
next
  case (SetData d)
  show ?thesis
    apply (rule exI [of _ "[SET_DATA (data (h ! this))]"])
    using assms SetData by (simp add: mutator_eqs replayUndo_def body_def)
next
  case (SetRenewal r)
  show ?thesis
    apply (rule exI [of _ "[SET_RENEWAL (renewal (h ! this))]"])
    using assms SetRenewal by (simp add: mutator_eqs replayUndo_def body_def)
next
  case (SetClaimed b)
  show ?thesis
    apply (rule exI [of _ "[SET_CLAIMED (claimed (h ! this))]"])
    using assms SetClaimed by (simp add: mutator_eqs replayUndo_def body_def)
qed

lemma undoneName_single: "undoneName [c] (undoneName cs n) = undoneName (c # cs) n"
  by (cases c) simp_all

lemma calls_undo:
  assumes "this < length h"
  shows "\<exists>us. undo (calls this cs h ! this) = undo (h ! this) @ us \<and>
    (\<forall>g. length (calls this cs h) \<le> length g \<and>
         (\<forall>i < length (calls this cs h). i \<noteq> this \<longrightarrow> g ! i = calls this cs h ! i) \<and>
         body (g ! this) = body (calls this cs h ! this) \<longrightarrow>
       body (replayUndo this us g ! this) = body (h ! this) \<and>
       name (replayUndo this us g ! this) = undoneName cs (name (g ! this)))"
  using assms
proof (induction cs arbitrary: h)
  case Nil
  show ?case
    by (rule exI [of _ "[]"]) (simp add: calls_def replayUndo_def)
next
  case (Cons c cs)
  define h1 where "h1 = call this c h"
  define h' where "h' = calls this cs h1"
  have this1: "this < length h1"
    using Cons.prems call_length [of this h c] by (simp add: h1_def)
  have len1: "length h1 \<le> length h'"
    using this1 by (simp add: h'_def calls_length)
  have eq: "calls this (c # cs) h = h'"
    by (simp add: calls_def h'_def h1_def)
  obtain us1 where u1: "undo (h1 ! this) = undo (h ! this) @ us1"
    and r1: "\<And>g. length h1 \<le> length g \<Longrightarrow>
         (\<forall>i < length h1. i \<noteq> this \<longrightarrow> g ! i = h1 ! i) \<Longrightarrow>
         body (g ! this) = body (h1 ! this) \<Longrightarrow>
       body (replayUndo this us1 g ! this) = body (h ! this) \<and>
       name (replayUndo this us1 g ! this) = undoneName [c] (name (g ! this))"
    using call_undo [OF Cons.prems, of c] unfolding h1_def by blast
  obtain us2 where u2: "undo (h' ! this) = undo (h1 ! this) @ us2"
    and r2: "\<And>g. length h' \<le> length g \<Longrightarrow>
         (\<forall>i < length h'. i \<noteq> this \<longrightarrow> g ! i = h' ! i) \<Longrightarrow>
         body (g ! this) = body (h' ! this) \<Longrightarrow>
       body (replayUndo this us2 g ! this) = body (h1 ! this) \<and>
       name (replayUndo this us2 g ! this) = undoneName cs (name (g ! this))"
    using Cons.IH [OF this1] unfolding h'_def by blast
  have "undo (h' ! this) = undo (h ! this) @ (us1 @ us2)"
    by (simp add: u1 u2)
  moreover have "body (replayUndo this (us1 @ us2) g ! this) = body (h ! this) \<and>
       name (replayUndo this (us1 @ us2) g ! this) = undoneName (c # cs) (name (g ! this))"
    if g: "length h' \<le> length g"
       "\<forall>i < length h'. i \<noteq> this \<longrightarrow> g ! i = h' ! i"
       "body (g ! this) = body (h' ! this)" for g
  proof -
    define g1 where "g1 = replayUndo this us2 g"
    have b1: "body (g1 ! this) = body (h1 ! this)"
      and n1: "name (g1 ! this) = undoneName cs (name (g ! this))"
      using r2 [OF g] by (simp_all add: g1_def)
    have l1: "length h1 \<le> length g1"
      using len1 g(1) by (simp add: g1_def)
    have f1: "\<forall>i < length h1. i \<noteq> this \<longrightarrow> g1 ! i = h1 ! i"
    proof (intro allI impI)
      fix i assume i: "i < length h1" "i \<noteq> this"
      have "g1 ! i = g ! i" using i by (simp add: g1_def)
      also have "\<dots> = h' ! i" using g(2) i len1 by simp
      also have "\<dots> = h1 ! i" using this1 i by (simp add: h'_def calls_frame)
      finally show "g1 ! i = h1 ! i" .
    qed
    have "body (replayUndo this us1 g1 ! this) = body (h ! this) \<and>
       name (replayUndo this us1 g1 ! this) = undoneName [c] (name (g1 ! this))"
      using r1 [OF l1 f1 b1] .
    then show ?thesis
      by (simp add: replayUndo_append g1_def [symmetric] n1 undoneName_single del: undoneName.simps)
  qed
  ultimately show ?case
    unfolding eq by blast
qed

lemma calls_name:
  "this < length h \<Longrightarrow> undoneName cs (name (calls this cs h ! this)) = undoneName cs (name (h ! this))"
proof (induction cs arbitrary: h)
  case Nil
  then show ?case by (simp add: calls_def)
next
  case (Cons c cs)
  have this1: "this < length (call this c h)"
    using Cons.prems call_length [of this h c] by simp
  show ?case
  proof (cases c)
    case (SetAuction n ht)
    then show ?thesis by simp
  next
    case (SetOwner p v)
    then show ?thesis
      using Cons.IH [OF this1] Cons.prems by (simp add: calls_def mutator_eqs)
  next
    case (SetRevoke p)
    then show ?thesis
      using Cons.IH [OF this1] Cons.prems by (simp add: calls_def mutator_eqs)
  next
    case (SetData d)
    then show ?thesis
      using Cons.IH [OF this1] Cons.prems by (simp add: calls_def mutator_eqs)
  next
    case (SetRenewal r)
    then show ?thesis
      using Cons.IH [OF this1] Cons.prems by (simp add: calls_def mutator_eqs)
  next
    case (SetClaimed b)
    then show ?thesis
      using Cons.IH [OF this1] Cons.prems by (simp add: calls_def mutator_eqs)
  qed
qed

subsection \<open>The codec\<close>

lemma bindE_simps [simp]:
  "bindE (Inl e) f = Inl e"
  "bindE (Inr x) f = f x"
  by (simp_all add: bindE_def)

lemma length_le_bytes [simp]: "length (le_bytes k v) = k"
  by (induction k arbitrary: v) simp_all

lemma le_nat_le_bytes: "v < 256 ^ k \<Longrightarrow> le_nat (le_bytes k v) = v"
proof (induction k arbitrary: v)
  case 0
  then show ?case by simp
next
  case (Suc k)
  have "v div 256 < 256 ^ k"
    using Suc.prems by (simp add: less_mult_imp_div_less mult.commute)
  then have "le_nat (le_bytes k (v div 256)) = v div 256"
    by (rule Suc.IH)
  moreover have "unat (of_nat (v mod 256) :: byte) = v mod 256"
    by (simp add: unat_of_nat)
  ultimately show ?case by simp
qed

lemma readBytes_append [simp]:
  "length bs = n \<Longrightarrow> readBytes n (bs @ rest) = Inr (bs, rest)"
  by (simp add: readBytes_def)

lemma readUInt_le_bytes:
  "v < 256 ^ k \<Longrightarrow> readUInt k (le_bytes k v @ rest) = Inr (v, rest)"
  by (simp add: readUInt_def le_nat_le_bytes)

lemma readU8_le_bytes [simp]:
  "v < 256 \<Longrightarrow> readU8 (le_bytes (Suc 0) v @ rest) = Inr (v, rest)"
  using readUInt_le_bytes [of v 1 rest] by (simp add: readU8_def del: le_bytes.simps)

lemma readU16_le_bytes [simp]:
  "v < 65536 \<Longrightarrow> readU16 (le_bytes 2 v @ rest) = Inr (v, rest)"
  using readUInt_le_bytes [of v 2 rest] by (simp add: readU16_def)

lemma readU32_le_bytes [simp]:
  "v < 2 ^ 32 \<Longrightarrow> readU32 (le_bytes 4 v @ rest) = Inr (v, rest)"
  using readUInt_le_bytes [of v 4 rest] by (simp add: readU32_def)

lemma readU64_le_bytes [simp]:
  "v < 2 ^ 64 \<Longrightarrow> readU64 (le_bytes 8 v @ rest) = Inr (v, rest)"
  using readUInt_le_bytes [of v 8 rest] by (simp add: readU64_def)

lemma out_writeBytes [simp]: "out (writeBytes bs bw) = out bw @ bs"
  by (simp add: writeBytes_def)

lemma alloc_writeBytes [simp]: "alloc (writeBytes bs bw) = alloc bw"
  by (simp add: writeBytes_def)

lemma bio_write_simps [simp]: "out (bio_write n) = []" "alloc (bio_write n) = n"
  by (simp_all add: bio_write_def)

lemmas write_defs = writeU8_def writeU16_def writeU32_def writeU64_def

lemma out_writeVarint:
  "out (writeVarint n bw) = out bw @ out (writeVarint n (bio_write 0))"
  by (simp add: writeVarint_def write_defs)

lemma length_writeVarint: "length (out (writeVarint n (bio_write 0))) = sizeVarint n"
  by (simp add: writeVarint_def write_defs sizeVarint_def)

lemma readVarint_writeVarint:
  "n < 2 ^ 64 \<Longrightarrow> readVarint (out (writeVarint n (bio_write 0)) @ rest) = Inr (n, rest)"
  by (simp add: writeVarint_def write_defs readVarint_def del: le_bytes.simps)

declare le_bytes.simps [simp del]

lemma out_Outpoint_toWriter [simp]:
  "out (Outpoint_toWriter p bw) = out bw @ hash p @ le_bytes 4 (index p)"
  by (simp add: Outpoint_toWriter_def write_defs)

lemma Outpoint_fromReader_bytes [simp]:
  "Outpoint_wf p \<Longrightarrow> Outpoint_fromReader (hash p @ le_bytes 4 (index p) @ rest) = Inr (p, rest)"
  by (simp add: Outpoint_fromReader_def Outpoint_wf_def)

lemma Outpoint_isNull_eq: "Outpoint_isNull p \<longleftrightarrow> p = Outpoint_new"
  by (cases p) (auto simp: Outpoint_isNull_def Outpoint_new_def)

lemma out_writeVarBytes [simp]:
  "out (writeVarBytes d bw) = out bw @ out (writeVarint (length d) (bio_write 0)) @ d"
  using out_writeVarint [of "length d" bw] by (simp add: writeVarBytes_def)

lemma readVarBytes_bytes [simp]:
  "length d < 2 ^ 64 \<Longrightarrow>
     readVarBytes (out (writeVarint (length d) (bio_write 0)) @ d @ rest) = Inr (d, rest)"
  by (simp add: readVarBytes_def readVarint_writeVarint)

lemma out_Auction_toWriter:
  "out (Auction_toWriter a bw) = out bw @ out (Auction_toWriter a (bio_write 0))"
  by (simp add: Auction_toWriter_def Let_def write_defs split: option.split)

lemma length_Auction_toWriter:
  "Outpoint_wf (owner a) \<Longrightarrow> Outpoint_wf (revoke a) \<Longrightarrow>
     length (out (Auction_toWriter a (bio_write 0))) = Auction_getSize a"
  by (simp add: Auction_toWriter_def Auction_getSize_def Let_def write_defs
      Outpoint_wf_def sizeVarlen_def length_writeVarint split: option.split)

lemma Auction_fromReader_bytes:
  assumes "Auction_wf a"
  shows "\<exists>a'. Auction_fromReader (out (Auction_toWriter a (bio_write 0)) @ rest) = Inr (a', rest)
     \<and> persisted a' = persisted a \<and> nameHash a' = ZERO_HASH \<and> ops a' = [] \<and> undo a' = []"
proof -
  have wf: "length (name a) < 256" "Outpoint_wf (owner a)" "value' a < 2 ^ 64"
    "Outpoint_wf (revoke a)" "height a < 2 ^ 32" "renewal a < 2 ^ 32"
    "Outpoint_isNull (owner a) \<Longrightarrow> value' a = 0 \<and> owner a = Outpoint_new"
    "Outpoint_isNull (revoke a) \<Longrightarrow> revoke a = Outpoint_new"
    "\<And>d. data a = Some d \<Longrightarrow> length d < 2 ^ 64"
    using assms by (auto simp: Auction_wf_def Auction_typed_def Outpoint_isNull_eq)
  show ?thesis
  proof (cases "data a")
    case None
    show ?thesis
      using wf None
      by (cases "Outpoint_isNull (owner a)"; cases "Outpoint_isNull (revoke a)")
         (simp_all add: Auction_toWriter_def Auction_fromReader_def Let_def write_defs
            persisted_def Auction_new_def)
  next
    case (Some d)
    show ?thesis
      using wf(1-8) wf(9) [OF Some] Some
      by (cases "Outpoint_isNull (owner a)"; cases "Outpoint_isNull (revoke a)")
         (simp_all add: Auction_toWriter_def Auction_fromReader_def Let_def write_defs
            persisted_def Auction_new_def)
  qed
qed

lemma readU8_Cons [simp]: "readU8 (b # rest) = Inr (unat b, rest)"
  by (simp add: readU8_def readUInt_def readBytes_def)

lemma Auction_toRaw_eq:
  assumes "Outpoint_wf (owner a)" "Outpoint_wf (revoke a)"
  shows "Auction_toRaw a = Inr (out (Auction_toWriter a (bio_write 0)))"
proof -
  have "out (Auction_toWriter a (bio_write (Auction_getSize a))) = out (Auction_toWriter a (bio_write 0))"
    using out_Auction_toWriter [of a "bio_write (Auction_getSize a)"] by simp
  moreover have "alloc (Auction_toWriter a bw) = alloc bw" for bw
    by (simp add: Auction_toWriter_def Let_def write_defs Outpoint_toWriter_def writeVarBytes_def
        writeVarint_def split: option.split)
  ultimately show ?thesis
    using length_Auction_toWriter [OF assms]
    by (simp add: Auction_toRaw_def Let_def render_def)
qed

lemma out_Op_toWriter:
  "out (Op_toWriter this bw) = out bw @ out (Op_toWriter this (bio_write 0))"
proof (cases this)
  case (SET_AUCTION st)
  then show ?thesis
    using out_Auction_toWriter [of st "writeU8 types_SET_AUCTION bw"]
      out_Auction_toWriter [of st "writeU8 types_SET_AUCTION (bio_write 0)"]
    by (simp add: write_defs)
qed (simp_all add: Let_def write_defs split: option.split)

lemma alloc_Op_toWriter: "alloc (Op_toWriter this bw) = alloc bw"
  by (cases this)
    (simp_all add: Let_def write_defs Auction_toWriter_def Outpoint_toWriter_def writeVarBytes_def
      writeVarint_def split: option.split)

lemma length_Op_toWriter:
  "Op_typed this \<Longrightarrow> length (out (Op_toWriter this (bio_write 0))) = Op_getSize this"
proof (cases this)
  case (SET_AUCTION st)
  assume "Op_typed this"
  then have "Outpoint_wf (owner st)" "Outpoint_wf (revoke st)"
    using SET_AUCTION by (simp_all add: Auction_typed_def)
  then show ?thesis
    using SET_AUCTION out_Auction_toWriter [of st "writeU8 types_SET_AUCTION (bio_write 0)"]
      length_Auction_toWriter [of st]
    by (simp add: write_defs)
qed (simp_all add: Let_def write_defs Outpoint_wf_def sizeVarlen_def length_writeVarint
      split: option.split)

lemma Op_toRaw_eq:
  "Op_typed this \<Longrightarrow> Op_toRaw this = Inr (out (Op_toWriter this (bio_write 0)))"
  using out_Op_toWriter [of this "bio_write (Op_getSize this)"]
  by (simp add: Op_toRaw_def Let_def render_def alloc_Op_toWriter length_Op_toWriter)

lemma Op_wf_typed: "Op_wf this \<Longrightarrow> Op_typed this"
  by (cases this) (simp_all add: Auction_wf_def)

lemmas types_defs = types_SET_AUCTION_def types_SET_OWNER_def types_SET_REVOKE_def
  types_SET_DATA_def types_SET_RENEWAL_def types_SET_CLAIMED_def

lemma Op_fromReader_bytes:
  assumes "Op_wf this"
  shows "\<exists>this'. Op_fromReader (out (Op_toWriter this (bio_write 0)) @ rest) = Inr (this', rest)
     \<and> map_op persisted this' = map_op persisted this"
proof (cases this)
  case (SET_AUCTION st)
  then have "Auction_wf st" using assms by simp
  then obtain st' where
    "Auction_fromReader (out (Auction_toWriter st (bio_write 0)) @ rest) = Inr (st', rest)"
    "persisted st' = persisted st"
    using Auction_fromReader_bytes [of st rest] by blast
  then show ?thesis
    using SET_AUCTION out_Auction_toWriter [of st "writeU8 types_SET_AUCTION (bio_write 0)"]
    by (simp add: Op_fromReader_def write_defs types_defs)
next
  case (SET_OWNER p v)
  then show ?thesis
    using assms
    by (cases "Outpoint_isNull p")
      (auto simp: Op_fromReader_def Let_def write_defs types_defs Outpoint_isNull_eq)
next
  case (SET_REVOKE p)
  then show ?thesis
    using assms
    by (cases "Outpoint_isNull p")
      (auto simp: Op_fromReader_def Let_def write_defs types_defs Outpoint_isNull_eq)
next
  case (SET_DATA d)
  then show ?thesis
    using assms
    by (cases d) (simp_all add: Op_fromReader_def Let_def write_defs types_defs)
next
  case (SET_RENEWAL r)
  then show ?thesis
    using assms by (simp add: Op_fromReader_def write_defs types_defs)
next
  case (SET_CLAIMED c)
  then show ?thesis
    using assms by (simp add: Op_fromReader_def write_defs types_defs)
qed

lemma undoneName_same:
  "(\<And>n ht. SetAuction n ht \<in> set cs \<Longrightarrow> n = nm) \<Longrightarrow> undoneName cs nm = nm"
proof (induction cs)
  case Nil
  then show ?case by simp
next
  case (Cons c cs)
  then show ?case by (cases c) auto
qed

text \<open>
  The value of a record, or of a \<^verbatim>\<open>SET_OWNER\<close> operation, whose owner is null is not
  written: the bytes are those of the record with the value 0, and so is the record read
  back.
\<close>

lemma Auction_kept_toWriter: "Auction_toWriter (Auction_kept r) bw = Auction_toWriter r bw"
  by (simp add: Auction_kept_def Auction_toWriter_def Let_def split: option.split)

lemma Auction_kept_wf: "Auction_typed r \<Longrightarrow> Auction_wf (Auction_kept r)"
  by (simp add: Auction_kept_def Auction_wf_def Auction_typed_def)

lemma Auction_wf_kept: "Auction_wf r \<Longrightarrow> Auction_kept r = r"
  by (simp add: Auction_kept_def Auction_wf_def)

lemma Auction_codec:
  assumes "Auction_typed r"
  shows "\<exists>r'. Auction_toRaw r = Inr (out (Auction_toWriter r (bio_write 0)))
     \<and> Auction_fromReader (out (Auction_toWriter r (bio_write 0)) @ rest) = Inr (r', rest)
     \<and> persisted r' = persisted (Auction_kept r)
     \<and> nameHash r' = ZERO_HASH \<and> ops r' = [] \<and> undo r' = []"
proof -
  have "Auction_toRaw r = Inr (out (Auction_toWriter r (bio_write 0)))"
    using assms by (intro Auction_toRaw_eq) (simp_all add: Auction_typed_def)
  then show ?thesis
    using Auction_fromReader_bytes [OF Auction_kept_wf [OF assms], of rest]
    by (simp add: Auction_kept_toWriter)
qed

lemma Op_kept_toWriter: "Op_toWriter (Op_kept this) bw = Op_toWriter this bw"
  by (cases this) (simp_all add: Auction_kept_toWriter Let_def)

lemma Op_kept_wf: "Op_typed this \<Longrightarrow> Op_wf (Op_kept this)"
  by (cases this) (simp_all add: Auction_kept_wf)

lemma Op_wf_kept: "Op_wf this \<Longrightarrow> Op_kept this = this"
  by (cases this) (auto simp: Auction_wf_kept)

lemma Op_codec:
  assumes "Op_typed this"
  shows "\<exists>this'. Op_toRaw this = Inr (out (Op_toWriter this (bio_write 0)))
     \<and> Op_fromReader (out (Op_toWriter this (bio_write 0)) @ rest) = Inr (this', rest)
     \<and> map_op persisted this' = map_op persisted (Op_kept this)"
  using Op_fromReader_bytes [OF Op_kept_wf [OF assms], of rest] Op_toRaw_eq [OF assms]
  by (simp add: Op_kept_toWriter)

lemma Outpoint_new_isNull [simp]: "Outpoint_isNull Outpoint_new"
  by (simp add: Outpoint_isNull_eq)

lemma Outpoint_new_wf [simp]: "Outpoint_wf Outpoint_new"
  by (simp add: Outpoint_wf_def Outpoint_new_def ZERO_HASH_def)

section \<open>The claims\<close>

subsection \<open>The undo log\<close>

text \<open>
  Claim C1, as the code has it. For every auction record of the store and every finite
  sequence of mutator calls on it: when the undo entries that the sequence has appended
  are replayed in reverse order, the record has the owner, value, revoke, data, height,
  renewal and claimed fields (and the name hash) it had before the sequence. Its name is
  the name given to the first \<^verbatim>\<open>setAuction\<close> call of the sequence, and the name it had when
  the sequence has no such call; so the record equals its snapshot field for field when
  every \<^verbatim>\<open>setAuction\<close> call of the sequence is given the name the record already has.
\<close>

theorem undo_restores:
  assumes "this < length h"
  shows "let h' = calls this cs h;
             us = drop (length (undo (h ! this))) (undo (h' ! this));
             h'' = replayUndo this us h'
         in persisted (h'' ! this) =
              persisted ((h ! this)\<lparr>name := undoneName cs (name (h ! this))\<rparr>)
            \<and> nameHash (h'' ! this) = nameHash (h ! this)
            \<and> ((\<forall>n ht. SetAuction n ht \<in> set cs \<longrightarrow> n = name (h ! this)) \<longrightarrow>
                 persisted (h'' ! this) = persisted (h ! this))"
proof -
  obtain us where u: "undo (calls this cs h ! this) = undo (h ! this) @ us"
    and r: "\<And>g. length (calls this cs h) \<le> length g \<Longrightarrow>
         (\<forall>i < length (calls this cs h). i \<noteq> this \<longrightarrow> g ! i = calls this cs h ! i) \<Longrightarrow>
         body (g ! this) = body (calls this cs h ! this) \<Longrightarrow>
       body (replayUndo this us g ! this) = body (h ! this) \<and>
       name (replayUndo this us g ! this) = undoneName cs (name (g ! this))"
    using calls_undo [OF assms, of cs] by blast
  have d: "drop (length (undo (h ! this))) (undo (calls this cs h ! this)) = us"
    by (simp add: u)
  have "body (replayUndo this us (calls this cs h) ! this) = body (h ! this) \<and>
       name (replayUndo this us (calls this cs h) ! this) =
         undoneName cs (name (calls this cs h ! this))"
    by (rule r) simp_all
  then have main: "persisted (replayUndo this us (calls this cs h) ! this) =
              persisted ((h ! this)\<lparr>name := undoneName cs (name (h ! this))\<rparr>)
            \<and> nameHash (replayUndo this us (calls this cs h) ! this) = nameHash (h ! this)"
    using assms by (simp add: calls_name body_def persisted_def)
  have "persisted (replayUndo this us (calls this cs h) ! this) = persisted (h ! this)"
    if "\<forall>n ht. SetAuction n ht \<in> set cs \<longrightarrow> n = name (h ! this)"
  proof -
    have "undoneName cs (name (h ! this)) = name (h ! this)"
      using that by (intro undoneName_same) blast
    then show ?thesis using main by simp
  qed
  with main show ?thesis
    by (simp add: Let_def d)
qed

text \<open>
  The scenario of section 8 of the specification: a new record, \<^verbatim>\<open>setAuction\<close> at height
  100, \<^verbatim>\<open>setOwner\<close> with a value of 5000, and the two undo entries replayed.
\<close>

theorem undo_restores_witness:
  "persisted (replayUndo 0
      (drop (length (undo ([Auction_new] ! 0)))
         (undo (calls 0 [SetAuction [101, 120] 100, SetOwner \<lparr>hash = replicate 32 7, index = 0\<rparr> 5000]
            [Auction_new] ! 0)))
      (calls 0 [SetAuction [101, 120] 100, SetOwner \<lparr>hash = replicate 32 7, index = 0\<rparr> 5000]
            [Auction_new]) ! 0)
   = ([101, 120], Outpoint_new, 0, Outpoint_new, None, 0, 0, False)"
  using undo_restores [of 0 "[Auction_new]"
    "[SetAuction [101, 120] 100, SetOwner \<lparr>hash = replicate 32 7, index = 0\<rparr> 5000]"]
  by (simp add: Let_def persisted_def Auction_new_def)

text \<open>
  Claim C1 as stated fails on the name: \<^verbatim>\<open>setAuction\<close> assigns the name before it takes
  the clone, so the snapshot of the undo entry holds the new name, and a new record on
  which \<^verbatim>\<open>setAuction\<close> is called and undone keeps the name of the call.
\<close>

theorem undo_restores_name_counterexample:
  "name ([Auction_new] ! 0) = []
   \<and> name (replayUndo 0
      (drop (length (undo ([Auction_new] ! 0)))
         (undo (calls 0 [SetAuction [101, 120] 100] [Auction_new] ! 0)))
      (calls 0 [SetAuction [101, 120] 100] [Auction_new]) ! 0) = [101, 120]
   \<and> persisted (replayUndo 0
      (drop (length (undo ([Auction_new] ! 0)))
         (undo (calls 0 [SetAuction [101, 120] 100] [Auction_new] ! 0)))
      (calls 0 [SetAuction [101, 120] 100] [Auction_new]) ! 0)
     \<noteq> persisted ([Auction_new] ! 0)"
  by (simp add: calls_def mutator_eqs replayUndo_def persisted_def inject_def Auction_new_def
      EMPTY_def)

text \<open>
  Claim C2, as the code has it. The \<^verbatim>\<open>SET_AUCTION\<close> entry that \<^verbatim>\<open>setAuction(name, height)\<close>
  pushes on the undo log holds a new object, at an address no object had before the call
  (so it is neither the live record nor an earlier snapshot). Its owner, value, revoke,
  data, height, renewal and claimed fields (and its name hash) are those of the record
  before the call; its name is the name given to the call. No later mutator call on the
  live record changes the object or the entry of the log. The entry of the forward log
  holds the live record itself.
\<close>

theorem setAuction_snapshot:
  assumes "this < length h"
  shows "last (undo (setAuction this n ht h ! this)) = SET_AUCTION (length h)
     \<and> last (ops (setAuction this n ht h ! this)) = SET_AUCTION this
     \<and> length h < length (setAuction this n ht h)
     \<and> persisted (setAuction this n ht h ! length h) = persisted ((h ! this)\<lparr>name := n\<rparr>)
     \<and> nameHash (setAuction this n ht h ! length h) = nameHash (h ! this)
     \<and> calls this cs (setAuction this n ht h) ! length h = setAuction this n ht h ! length h
     \<and> take (length (undo (setAuction this n ht h ! this)))
          (undo (calls this cs (setAuction this n ht h) ! this))
        = undo (setAuction this n ht h ! this)"
proof -
  define h' where "h' = setAuction this n ht h"
  have eq: "h' = h[this := (h ! this)\<lparr>name := n,
        undo := undo (h ! this) @
          (if data (h ! this) \<noteq> None then [SET_DATA (data (h ! this))] else []) @
          [SET_AUCTION (length h)],
        ops := ops (h ! this) @
          (if data (h ! this) \<noteq> None then [SET_DATA None] else []) @ [SET_AUCTION this],
        owner := Outpoint_new, value' := 0, revoke := Outpoint_new, data := None,
        height := ht, renewal := ht, claimed := False\<rparr>]
     @ [inject Auction_new ((h ! this)\<lparr>name := n\<rparr>)]"
    unfolding h'_def using assms by (rule setAuction_eq)
  have len: "length h' = Suc (length h)"
    by (simp add: eq)
  have this': "this < length h'"
    using assms len by simp
  have 1: "last (undo (h' ! this)) = SET_AUCTION (length h)"
    "last (ops (h' ! this)) = SET_AUCTION this"
    using assms by (simp_all add: eq nth_append)
  have 2: "persisted (h' ! length h) = persisted ((h ! this)\<lparr>name := n\<rparr>)"
    "nameHash (h' ! length h) = nameHash (h ! this)"
    by (simp_all add: eq nth_append persisted_def inject_def)
  have 3: "calls this cs h' ! length h = h' ! length h"
    using this' assms len by (intro calls_frame) simp_all
  obtain us where "undo (calls this cs h' ! this) = undo (h' ! this) @ us"
    using calls_undo [OF this', of cs] by blast
  then have 4: "take (length (undo (h' ! this))) (undo (calls this cs h' ! this)) = undo (h' ! this)"
    by simp
  show ?thesis
    using 1 2 3 4 len unfolding h'_def by simp
qed

theorem setAuction_snapshot_witness:
  "last (undo (setAuction 0 [101, 120] 100 [Auction_new\<lparr>claimed := True\<rparr>] ! 0)) = SET_AUCTION 1
   \<and> persisted (setAuction 0 [101, 120] 100 [Auction_new\<lparr>claimed := True\<rparr>] ! 1)
       = ([101, 120], Outpoint_new, 0, Outpoint_new, None, 0, 0, True)
   \<and> calls 0 [SetClaimed False, SetRenewal 7]
        (setAuction 0 [101, 120] 100 [Auction_new\<lparr>claimed := True\<rparr>]) ! 1
       = setAuction 0 [101, 120] 100 [Auction_new\<lparr>claimed := True\<rparr>] ! 1"
  using setAuction_snapshot [of 0 "[Auction_new\<lparr>claimed := True\<rparr>]" "[101, 120]" 100
      "[SetClaimed False, SetRenewal 7]"]
  by (simp add: persisted_def Auction_new_def)

text \<open>
  Claim C2 as stated fails on the name: the snapshot of a record named \<open>[1]\<close> on which
  \<^verbatim>\<open>setAuction\<close> is called with the name \<open>[2]\<close> holds the name \<open>[2]\<close>.
\<close>

theorem setAuction_snapshot_counterexample:
  "last (undo (setAuction 0 [2] 100 [Auction_new\<lparr>name := [1]\<rparr>] ! 0)) = SET_AUCTION 1
   \<and> name (setAuction 0 [2] 100 [Auction_new\<lparr>name := [1]\<rparr>] ! 1) = [2]
   \<and> name ([Auction_new\<lparr>name := [1]\<rparr>] ! 0) = [1]"
  by (simp add: mutator_eqs inject_def Auction_new_def)




subsection \<open>The binary encoding\<close>

text \<open>
  Claim C4, as the code has it. For every auction record \<open>r\<close> of the data model,
  encoding succeeds and decoding the bytes gives a record equal to \<open>r\<close> on every persisted
  field (name, owner, value, revoke, data, height, renewal, claimed), except that the
  decoded value is 0 when the owner is null; so the decoded record equals \<open>r\<close> on every
  persisted field when a null owner carries the value 0. The name hash and the two logs
  are not part of the encoding: the bytes do not depend on them, and the decoded record
  has the zero hash and empty logs.
\<close>

theorem Auction_roundtrip:
  assumes "Auction_typed r"
  shows "\<exists>bs r'. Auction_toRaw r = Inr bs \<and> Auction_fromRaw bs = Inr r'
     \<and> persisted r' = persisted (Auction_kept r)
     \<and> ((Outpoint_isNull (owner r) \<longrightarrow> value' r = 0) \<longrightarrow> persisted r' = persisted r)
     \<and> nameHash r' = ZERO_HASH \<and> ops r' = [] \<and> undo r' = []
     \<and> Auction_toRaw (r\<lparr>nameHash := nh, ops := os, undo := us\<rparr>) = Inr bs"
proof -
  obtain r' where r': "Auction_toRaw r = Inr (out (Auction_toWriter r (bio_write 0)))"
    "Auction_fromReader (out (Auction_toWriter r (bio_write 0)) @ []) = Inr (r', [])"
    "persisted r' = persisted (Auction_kept r)"
    "nameHash r' = ZERO_HASH" "ops r' = []" "undo r' = []"
    using Auction_codec [OF assms, of "[]"] by blast
  have "Auction_fromRaw (out (Auction_toWriter r (bio_write 0))) = Inr r'"
    using r'(2) by (simp add: Auction_fromRaw_def bio_read_def)
  moreover have "Auction_toRaw (r\<lparr>nameHash := nh, ops := os, undo := us\<rparr>) = Auction_toRaw r"
    by (simp add: Auction_toRaw_def Auction_toWriter_def Auction_getSize_def)
  moreover have "persisted r' = persisted r" if "Outpoint_isNull (owner r) \<longrightarrow> value' r = 0"
    using that r'(3) by (auto simp: Auction_kept_def persisted_def)
  ultimately show ?thesis
    using r' by simp
qed

theorem Auction_roundtrip_witness:
  "\<exists>bs r'. Auction_toRaw (Auction_new\<lparr>name := [101, 120],
        owner := \<lparr>hash = replicate 32 7, index = 0\<rparr>, value' := 5000, data := Some [1, 2, 3],
        height := 100, renewal := 100\<rparr>) = Inr bs
     \<and> Auction_fromRaw bs = Inr r'
     \<and> persisted r' = ([101, 120], \<lparr>hash = replicate 32 7, index = 0\<rparr>, 5000, Outpoint_new,
          Some [1, 2, 3], 100, 100, False)"
proof -
  let ?r = "Auction_new\<lparr>name := [101, 120],
        owner := \<lparr>hash = replicate 32 7, index = 0\<rparr>, value' := 5000, data := Some [1, 2, 3],
        height := 100, renewal := 100\<rparr>"
  have t: "Auction_typed ?r"
    by (simp add: Auction_typed_def Outpoint_wf_def Auction_new_def Outpoint_new_def ZERO_HASH_def)
  have n: "\<not> Outpoint_isNull (owner ?r)"
    by (simp add: Outpoint_isNull_def)
  show ?thesis
    using Auction_roundtrip [OF t, where nh = ZERO_HASH and os = "[]" and us = "[]"] n
    by (simp add: persisted_def Auction_new_def) blast
qed

text \<open>
  Claim C4 as stated fails on the value: \<^verbatim>\<open>toWriter\<close> writes the value only when the owner
  is not null. The record that \<^verbatim>\<open>setOwner\<close> with a null outpoint and the value 5 makes of a
  new record is decoded with the value 0.
\<close>

theorem Auction_roundtrip_value_counterexample:
  "persisted (setOwner 0 Outpoint_new 5 [Auction_new] ! 0)
     = ([], Outpoint_new, 5, Outpoint_new, None, 0, 0, False)
   \<and> map_sum id persisted
       (bindE (Auction_toRaw (setOwner 0 Outpoint_new 5 [Auction_new] ! 0)) Auction_fromRaw)
     = Inr ([], Outpoint_new, 0, Outpoint_new, None, 0, 0, False)"
proof -
  let ?r = "setOwner 0 Outpoint_new 5 [Auction_new] ! 0"
  have p: "persisted ?r = ([], Outpoint_new, 5, Outpoint_new, None, 0, 0, False)"
    by (simp add: mutator_eqs persisted_def Auction_new_def EMPTY_def)
  then have t: "Auction_typed ?r"
    by (simp add: persisted_def Auction_typed_def)
  obtain r' where r': "Auction_toRaw ?r = Inr (out (Auction_toWriter ?r (bio_write 0)))"
    "Auction_fromReader (out (Auction_toWriter ?r (bio_write 0)) @ []) = Inr (r', [])"
    "persisted r' = persisted (Auction_kept ?r)"
    using Auction_codec [OF t, of "[]"] by blast
  have "map_sum id persisted (bindE (Auction_toRaw ?r) Auction_fromRaw)
      = Inr (persisted (Auction_kept ?r))"
    using r' by (simp add: Auction_fromRaw_def bio_read_def)
  then show ?thesis
    using p by (simp add: persisted_def Auction_kept_def)
qed

text \<open>
  Claim C5, as the code has it. For each of the six variants and every payload of the
  data model, null or present, encoding the operation succeeds and decoding the bytes
  gives an operation of the same type with the same payload (for \<^verbatim>\<open>SET_AUCTION\<close>, an
  auction with the same persisted fields), except that the decoded value is 0 where the
  owner is null, in \<^verbatim>\<open>SET_OWNER\<close> and in the record of \<^verbatim>\<open>SET_AUCTION\<close>; so the decoded
  operation equals the original when a null owner carries the value 0.
\<close>

theorem Op_roundtrip:
  assumes "Op_typed this"
  shows "\<exists>bs this'. Op_toRaw this = Inr bs \<and> Op_fromRaw bs = Inr this'
     \<and> op_type this' = op_type this
     \<and> map_op persisted this' = map_op persisted (Op_kept this)
     \<and> (Op_wf this \<longrightarrow> map_op persisted this' = map_op persisted this)"
proof -
  obtain this' where 1: "Op_toRaw this = Inr (out (Op_toWriter this (bio_write 0)))"
    "Op_fromReader (out (Op_toWriter this (bio_write 0)) @ []) = Inr (this', [])"
    "map_op persisted this' = map_op persisted (Op_kept this)"
    using Op_codec [OF assms, of "[]"] by blast
  have "op_type this' = op_type this"
    using 1(3) by (cases this; cases this') simp_all
  moreover have "Op_fromRaw (out (Op_toWriter this (bio_write 0))) = Inr this'"
    using 1(2) by (simp add: Op_fromRaw_def bio_read_def)
  moreover have "map_op persisted this' = map_op persisted this" if "Op_wf this"
    using that 1(3) by (simp add: Op_wf_kept)
  ultimately show ?thesis
    using 1(1,3) by simp
qed

theorem Op_roundtrip_witness:
  "(\<exists>bs this'. Op_toRaw (SET_OWNER \<lparr>hash = replicate 32 7, index = 0\<rparr> 5000) = Inr bs
      \<and> Op_fromRaw bs = Inr this'
      \<and> map_op persisted this' = SET_OWNER \<lparr>hash = replicate 32 7, index = 0\<rparr> 5000)
   \<and> (\<exists>bs this'. Op_toRaw (SET_DATA None) = Inr bs \<and> Op_fromRaw bs = Inr this'
      \<and> map_op persisted this' = SET_DATA None)"
proof -
  have 1: "Op_typed (SET_OWNER \<lparr>hash = replicate 32 7, index = 0\<rparr> 5000)"
    by (simp add: Outpoint_wf_def)
  have 2: "Op_typed (SET_DATA None)"
    by simp
  have 3: "\<not> Outpoint_isNull \<lparr>hash = replicate 32 7, index = 0\<rparr>"
    by (simp add: Outpoint_isNull_def)
  show ?thesis
    using Op_roundtrip [OF 1] Op_roundtrip [OF 2] 3 by auto
qed

text \<open>
  Claim C5 as stated fails for \<^verbatim>\<open>SET_OWNER\<close> with a null outpoint and a value other than 0,
  the operation that \<^verbatim>\<open>setOwner\<close> logs when it is called so: it decodes to the value 0.
\<close>

theorem Op_roundtrip_value_counterexample:
  "ops (setOwner 0 Outpoint_new 5 [Auction_new] ! 0) = [SET_OWNER Outpoint_new 5]
   \<and> map_sum id (map_op persisted) (bindE (Op_toRaw (SET_OWNER Outpoint_new 5)) Op_fromRaw)
     = Inr (SET_OWNER Outpoint_new 0)"
proof -
  have "ops (setOwner 0 Outpoint_new 5 [Auction_new] ! 0) = [SET_OWNER Outpoint_new 5]"
    by (simp add: mutator_eqs Auction_new_def)
  moreover have "Op_typed (SET_OWNER Outpoint_new 5)"
    by simp
  then have "map_sum id (map_op persisted) (bindE (Op_toRaw (SET_OWNER Outpoint_new 5)) Op_fromRaw)
     = Inr (SET_OWNER Outpoint_new 0)"
    using Op_codec [of "SET_OWNER Outpoint_new 5" "[]"]
    by (auto simp: Op_fromRaw_def bio_read_def)
  ultimately show ?thesis by simp
qed

text \<open>
  Claim C10. For every auction record and every operation whose fields have the types of
  the data model, \<^verbatim>\<open>toWriter\<close> writes exactly \<^verbatim>\<open>getSize()\<close> bytes, and \<^verbatim>\<open>toRaw\<close> succeeds with
  an encoding of exactly that length.
\<close>

theorem getSize_exact:
  "(Auction_typed a \<longrightarrow>
      (\<exists>bs. Auction_toRaw a = Inr bs \<and> length bs = Auction_getSize a)
      \<and> length (out (Auction_toWriter a bw)) = length (out bw) + Auction_getSize a)
   \<and> (Op_typed this \<longrightarrow>
      (\<exists>bs. Op_toRaw this = Inr bs \<and> length bs = Op_getSize this)
      \<and> length (out (Op_toWriter this bw)) = length (out bw) + Op_getSize this)"
proof (intro conjI impI)
  assume a: "Auction_typed a"
  then have t: "Outpoint_wf (owner a)" "Outpoint_wf (revoke a)"
    by (simp_all add: Auction_typed_def)
  show "\<exists>bs. Auction_toRaw a = Inr bs \<and> length bs = Auction_getSize a"
    using Auction_toRaw_eq [OF t] length_Auction_toWriter [OF t] by simp
  show "length (out (Auction_toWriter a bw)) = length (out bw) + Auction_getSize a"
    using out_Auction_toWriter [of a bw] length_Auction_toWriter [OF t] by simp
next
  assume o: "Op_typed this"
  show "\<exists>bs. Op_toRaw this = Inr bs \<and> length bs = Op_getSize this"
    using Op_toRaw_eq [OF o] length_Op_toWriter [OF o] by simp
  show "length (out (Op_toWriter this bw)) = length (out bw) + Op_getSize this"
    using out_Op_toWriter [of this bw] length_Op_toWriter [OF o] by simp
qed

theorem getSize_exact_witness:
  "(\<exists>bs. Auction_toRaw (Auction_new\<lparr>name := [101, 120], data := Some [1, 2, 3]\<rparr>) = Inr bs
       \<and> length bs = 19)
   \<and> (\<exists>bs. Op_toRaw (SET_REVOKE \<lparr>hash = replicate 32 7, index = 0\<rparr>) = Inr bs \<and> length bs = 38)"
proof -
  let ?a = "Auction_new\<lparr>name := [101, 120], data := Some [1, 2, 3]\<rparr>"
  let ?o = "SET_REVOKE \<lparr>hash = replicate 32 7, index = 0\<rparr> :: auction op"
  have a: "Auction_typed ?a"
    by (simp add: Auction_typed_def Outpoint_wf_def Auction_new_def Outpoint_new_def ZERO_HASH_def)
  have o: "Op_typed ?o"
    by (simp add: Outpoint_wf_def)
  have "Auction_getSize ?a = 19"
    by (simp add: Auction_getSize_def Auction_new_def Outpoint_isNull_def Outpoint_new_def
        sizeVarlen_def sizeVarint_def)
  moreover have "Op_getSize ?o = 38"
    by (simp add: Outpoint_isNull_def)
  ultimately show ?thesis
    using getSize_exact [of ?a "bio_write 0" ?o] a o by simp
qed

text \<open>
  Claim C9. Decoding an operation whose first byte is not one of the tags 0 to 5 fails
  with the error \<^verbatim>\<open>Bad op type\<close>, whatever follows the byte; no operation is returned.
\<close>

theorem Op_fromReader_bad_type:
  assumes "5 < unat b"
  shows "Op_fromReader (b # rest) = Inl BadOpType \<and> Op_fromRaw (b # rest) = Inl BadOpType"
  using assms
  by (simp add: Op_fromReader_def Op_fromRaw_def bio_read_def types_SET_AUCTION_def
      types_SET_OWNER_def types_SET_REVOKE_def types_SET_DATA_def types_SET_RENEWAL_def
      types_SET_CLAIMED_def)

theorem Op_fromReader_bad_type_witness:
  "Op_fromReader [6, 1] = Inl BadOpType \<and> Op_fromRaw [6, 1] = Inl BadOpType"
  using Op_fromReader_bad_type [of 6 "[1]"] by simp

subsection \<open>Phase, expiry and locality\<close>

text \<open>
  Claim C6. With a bidding period \<open>B\<close> shorter than the total period \<open>T\<close> and a record
  of height \<open>H\<close> that is not claimed, the state at \<open>h\<close> is \<^verbatim>\<open>BIDDING\<close> when \<open>h < H + B\<close>,
  \<^verbatim>\<open>REVEAL\<close> when \<open>H + B \<le> h < H + T\<close> and \<^verbatim>\<open>CLOSED\<close> when \<open>H + T \<le> h\<close>; the state of
  any record does not decrease with \<open>h\<close>; and the state of a claimed record is \<^verbatim>\<open>CLOSED\<close>
  at every height.
\<close>

theorem state_phases:
  assumes "BIDDING_PERIOD rules < TOTAL_PERIOD rules"
  shows "(\<not> claimed a \<longrightarrow>
            (h < height a + BIDDING_PERIOD rules \<longrightarrow> state rules a h = BIDDING) \<and>
            (height a + BIDDING_PERIOD rules \<le> h \<and> h < height a + TOTAL_PERIOD rules
               \<longrightarrow> state rules a h = REVEAL) \<and>
            (height a + TOTAL_PERIOD rules \<le> h \<longrightarrow> state rules a h = CLOSED))
       \<and> (h \<le> h' \<longrightarrow> state rules a h \<le> state rules a h')
       \<and> (claimed a \<longrightarrow> state rules a h = CLOSED)"
  using assms by (simp add: state_def BIDDING_def REVEAL_def CLOSED_def)

theorem state_phases_witness:
  "state \<lparr>BIDDING_PERIOD = 5, TOTAL_PERIOD = 15, RENEWAL_WINDOW = 50\<rparr>
     (Auction_new\<lparr>height := 100\<rparr>) 104 = BIDDING
   \<and> state \<lparr>BIDDING_PERIOD = 5, TOTAL_PERIOD = 15, RENEWAL_WINDOW = 50\<rparr>
     (Auction_new\<lparr>height := 100\<rparr>) 105 = REVEAL
   \<and> state \<lparr>BIDDING_PERIOD = 5, TOTAL_PERIOD = 15, RENEWAL_WINDOW = 50\<rparr>
     (Auction_new\<lparr>height := 100\<rparr>) 140 = CLOSED
   \<and> state \<lparr>BIDDING_PERIOD = 5, TOTAL_PERIOD = 15, RENEWAL_WINDOW = 50\<rparr>
     (Auction_new\<lparr>height := 100\<rparr>) 104
     \<le> state \<lparr>BIDDING_PERIOD = 5, TOTAL_PERIOD = 15, RENEWAL_WINDOW = 50\<rparr>
     (Auction_new\<lparr>height := 100\<rparr>) 140
   \<and> state \<lparr>BIDDING_PERIOD = 5, TOTAL_PERIOD = 15, RENEWAL_WINDOW = 50\<rparr>
     (Auction_new\<lparr>height := 100, claimed := True\<rparr>) 0 = CLOSED"
  using
    state_phases [of "\<lparr>BIDDING_PERIOD = 5, TOTAL_PERIOD = 15, RENEWAL_WINDOW = 50\<rparr>"
      "Auction_new\<lparr>height := 100\<rparr>" 104 140]
    state_phases [of "\<lparr>BIDDING_PERIOD = 5, TOTAL_PERIOD = 15, RENEWAL_WINDOW = 50\<rparr>"
      "Auction_new\<lparr>height := 100\<rparr>" 105 105]
    state_phases [of "\<lparr>BIDDING_PERIOD = 5, TOTAL_PERIOD = 15, RENEWAL_WINDOW = 50\<rparr>"
      "Auction_new\<lparr>height := 100\<rparr>" 140 140]
    state_phases [of "\<lparr>BIDDING_PERIOD = 5, TOTAL_PERIOD = 15, RENEWAL_WINDOW = 50\<rparr>"
      "Auction_new\<lparr>height := 100, claimed := True\<rparr>" 0 0]
  by (simp add: Auction_new_def)

text \<open>
  Claim C7. \<^verbatim>\<open>isExpired\<close> is false at a height where the record is not \<^verbatim>\<open>CLOSED\<close>; where it
  is \<^verbatim>\<open>CLOSED\<close>, \<^verbatim>\<open>isExpired\<close> is true exactly when the height has reached the renewal height
  plus the renewal window, or both the owner and the revoke outpoint are null.
\<close>

theorem isExpired_closed:
  "(state rules a h \<noteq> CLOSED \<longrightarrow> \<not> isExpired rules a h)
   \<and> (state rules a h = CLOSED \<longrightarrow>
        (isExpired rules a h \<longleftrightarrow>
           renewal a + RENEWAL_WINDOW rules \<le> h
           \<or> (Outpoint_isNull (owner a) \<and> Outpoint_isNull (revoke a))))"
  by (simp add: isExpired_def isClosed_def)

theorem isExpired_closed_witness:
  "\<not> isExpired \<lparr>BIDDING_PERIOD = 5, TOTAL_PERIOD = 15, RENEWAL_WINDOW = 50\<rparr>
       (Auction_new\<lparr>height := 100, renewal := 100\<rparr>) 104
   \<and> isExpired \<lparr>BIDDING_PERIOD = 5, TOTAL_PERIOD = 15, RENEWAL_WINDOW = 50\<rparr>
       (Auction_new\<lparr>height := 100, renewal := 100\<rparr>) 115
   \<and> \<not> isExpired \<lparr>BIDDING_PERIOD = 5, TOTAL_PERIOD = 15, RENEWAL_WINDOW = 50\<rparr>
       (Auction_new\<lparr>owner := \<lparr>hash = replicate 32 7, index = 0\<rparr>, height := 100, renewal := 100\<rparr>) 149
   \<and> isExpired \<lparr>BIDDING_PERIOD = 5, TOTAL_PERIOD = 15, RENEWAL_WINDOW = 50\<rparr>
       (Auction_new\<lparr>owner := \<lparr>hash = replicate 32 7, index = 0\<rparr>, height := 100, renewal := 100\<rparr>) 150"
  using
    isExpired_closed [of "\<lparr>BIDDING_PERIOD = 5, TOTAL_PERIOD = 15, RENEWAL_WINDOW = 50\<rparr>"
      "Auction_new\<lparr>height := 100, renewal := 100\<rparr>" 104]
    isExpired_closed [of "\<lparr>BIDDING_PERIOD = 5, TOTAL_PERIOD = 15, RENEWAL_WINDOW = 50\<rparr>"
      "Auction_new\<lparr>height := 100, renewal := 100\<rparr>" 115]
    isExpired_closed [of "\<lparr>BIDDING_PERIOD = 5, TOTAL_PERIOD = 15, RENEWAL_WINDOW = 50\<rparr>"
      "Auction_new\<lparr>owner := \<lparr>hash = replicate 32 7, index = 0\<rparr>, height := 100, renewal := 100\<rparr>" 149]
    isExpired_closed [of "\<lparr>BIDDING_PERIOD = 5, TOTAL_PERIOD = 15, RENEWAL_WINDOW = 50\<rparr>"
      "Auction_new\<lparr>owner := \<lparr>hash = replicate 32 7, index = 0\<rparr>, height := 100, renewal := 100\<rparr>" 150]
  by (simp add: state_def Auction_new_def Outpoint_isNull_def Outpoint_new_def
      BIDDING_def REVEAL_def CLOSED_def)

text \<open>
  Claim C8. \<^verbatim>\<open>isLocal\<close> is true when the view has no entry for the outpoint, and when the
  entry's height is \<open>-1\<close>, the height of a coin that is not confirmed; otherwise it is true
  exactly when the entry's height is at least the height of the record.
\<close>

theorem isLocal_height:
  "(view prevout = None \<longrightarrow> isLocal a view prevout)
   \<and> (\<forall>entry. view prevout = Some entry \<and> coin_height entry = - 1 \<longrightarrow> isLocal a view prevout)
   \<and> (\<forall>entry. view prevout = Some entry \<and> coin_height entry \<noteq> - 1 \<longrightarrow>
         (isLocal a view prevout \<longleftrightarrow> int (height a) \<le> coin_height entry))"
  by (simp add: isLocal_def)

theorem isLocal_height_witness:
  "isLocal (Auction_new\<lparr>height := 100\<rparr>) (\<lambda>p. None) Outpoint_new
   \<and> isLocal (Auction_new\<lparr>height := 100\<rparr>) (\<lambda>p. Some \<lparr>coin_height = - 1\<rparr>) Outpoint_new
   \<and> isLocal (Auction_new\<lparr>height := 100\<rparr>) (\<lambda>p. Some \<lparr>coin_height = 100\<rparr>) Outpoint_new
   \<and> \<not> isLocal (Auction_new\<lparr>height := 100\<rparr>) (\<lambda>p. Some \<lparr>coin_height = 99\<rparr>) Outpoint_new"
  using
    isLocal_height [of "\<lambda>p. None" Outpoint_new "Auction_new\<lparr>height := 100\<rparr>"]
    isLocal_height [of "\<lambda>p. Some \<lparr>coin_height = - 1\<rparr>" Outpoint_new "Auction_new\<lparr>height := 100\<rparr>"]
    isLocal_height [of "\<lambda>p. Some \<lparr>coin_height = 100\<rparr>" Outpoint_new "Auction_new\<lparr>height := 100\<rparr>"]
    isLocal_height [of "\<lambda>p. Some \<lparr>coin_height = 99\<rparr>" Outpoint_new "Auction_new\<lparr>height := 100\<rparr>"]
  by (simp add: Auction_new_def)

end
